theory Spec2Isabelle
  imports Main
begin

section \<open>Go library functions the program calls\<close>

text \<open>
  Go strings are byte sequences; \<open>string\<close> (a list of 8-bit characters) models them.
  The library functions below follow the Go standard library on a Unix target, where the
  path separator is the slash.  \<open>strings.ToLower\<close> is modelled on its ASCII range
  (the letters A to Z); other bytes are kept.
\<close>

definition strings_ToLower :: "string \<Rightarrow> string" where
  "strings_ToLower s =
     map (\<lambda>c. if 65 \<le> (of_char c :: nat) \<and> (of_char c :: nat) \<le> 90
               then char_of ((of_char c :: nat) + 32) else c) s"

text \<open>
  \<open>filepath.Ext\<close>: scan from the last byte towards the first, stop at a separator,
  return the suffix that starts at the first dot met.  The first argument of the helper is
  the part of the path still to scan, reversed; the second the bytes already scanned.
\<close>

fun ext_scan :: "string \<Rightarrow> string \<Rightarrow> string" where
  "ext_scan [] seen = []"
| "ext_scan (c # cs) seen =
     (if c = CHR ''/'' then []
      else if c = CHR ''.'' then c # seen
      else ext_scan cs (c # seen))"

definition filepath_Ext :: "string \<Rightarrow> string" where
  "filepath_Ext path = ext_scan (rev path) []"

text \<open>
  \<open>filepath.Base\<close>: the empty path gives a dot; trailing separators are stripped; the
  result is what follows the last separator left, or a single separator when nothing is left.
\<close>

definition filepath_Base :: "string \<Rightarrow> string" where
  "filepath_Base path =
     (if path = [] then ''.''
      else
        let stripped = rev (dropWhile (\<lambda>c. c = CHR ''/'') (rev path));
            last_elem = rev (takeWhile (\<lambda>c. c \<noteq> CHR ''/'') (rev stripped))
        in if last_elem = [] then ''/'' else last_elem)"

fun strings_Join :: "string list \<Rightarrow> string \<Rightarrow> string" where
  "strings_Join [] sep = []"
| "strings_Join [x] sep = x"
| "strings_Join (x # y # ys) sep = x @ sep @ strings_Join (y # ys) sep"

text \<open>
  What the extension filter reads of a parsed URL: its path, and its query values in the
  order in which the \<open>range\<close> statement over the map \<open>u.Query()\<close> visits the
  parameters (Go leaves that order unspecified), each parameter with its list of values.
  The parser \<open>url.Parse\<close> itself is a parameter of the model: \<open>None\<close> is its error.
\<close>

record URL =
  Path :: string
  Query :: "(string \<times> string list) list"

section \<open>The extension filter\<close>

text \<open>The inner loop of \<open>isAllowedExtension\<close>, over the values of one parameter.\<close>

fun ext_of_vals :: "string list \<Rightarrow> string" where
  "ext_of_vals [] = []"
| "ext_of_vals (val # vals) =
     (let e = strings_ToLower (filepath_Ext val)
      in if e \<noteq> [] then e else ext_of_vals vals)"

text \<open>The outer loop, over the parameters; it leaves as soon as an extension is set.\<close>

fun ext_of_query :: "(string \<times> string list) list \<Rightarrow> string" where
  "ext_of_query [] = []"
| "ext_of_query ((k, vals) # q) =
     (let ext = ext_of_vals vals
      in if ext \<noteq> [] then ext else ext_of_query q)"

text \<open>The final loop: compare the extension with each entry of the allow-list.\<close>

fun ext_listed :: "string \<Rightarrow> string list \<Rightarrow> bool" where
  "ext_listed ext [] = False"
| "ext_listed ext (allowedExt # rest) = (if ext = allowedExt then True else ext_listed ext rest)"

definition isAllowedExtension ::
  "(string \<Rightarrow> URL option) \<Rightarrow> string \<Rightarrow> string list \<Rightarrow> bool" where
  "isAllowedExtension url_Parse fileURL allowedExtensions =
     (case url_Parse fileURL of
        None \<Rightarrow> False
      | Some u \<Rightarrow>
          (let ext0 = strings_ToLower (filepath_Ext (Path u));
               ext = (if ext0 = [] then ext_of_query (Query u) else ext0)
           in ext_listed ext allowedExtensions))"

section \<open>Tasks\<close>

datatype Status = StatusCreated | StatusProcessing | StatusDone | StatusError

record Task =
  ID :: string
  Status :: Status
  FileURLs :: "string list"
  ResultURL :: string
  ErrorDetails :: string

text \<open>\<open>NewTask\<close>; the identifier is the string that \<open>uuid.New()\<close> returned.\<close>

definition NewTask :: "string \<Rightarrow> Task" where
  "NewTask uuid =
     \<lparr>ID = uuid, Status = StatusCreated, FileURLs = [], ResultURL = [], ErrorDetails = []\<rparr>"

definition AddFile :: "string \<Rightarrow> Task \<Rightarrow> Task" where
  "AddFile url t = t\<lparr>FileURLs := FileURLs t @ [url]\<rparr>"

definition setError :: "string \<Rightarrow> Task \<Rightarrow> Task" where
  "setError errStr t = t\<lparr>Status := StatusError, ErrorDetails := errStr\<rparr>"

section \<open>The environment of a processing pass\<close>

text \<open>
  What \<open>http.Get\<close> hands back when it reports no error: the numeric status code, the
  status line and the body.
\<close>

record Response =
  StatusCode :: int
  StatusLine :: string
  Body :: string

text \<open>
  The file system, the network and the zip writer are outside the program.  Each call is a
  function of the state \<open>'w\<close> of the outside world that returns its result and the next
  state; an error is the text that formatting it with \<open>%v\<close> prints.  The environment
  also holds the URL parser, the UUID generator (its argument counts the calls made before)
  and the method \<open>SetResultURL\<close> of \<open>Task\<close>, which \<open>AddFileHandler\<close> calls and
  whose body is not among the sources.
\<close>

record 'w env =
  url_Parse :: "string \<Rightarrow> URL option"
  os_Create :: "string \<Rightarrow> 'w \<Rightarrow> string option \<times> 'w"
  http_Get :: "string \<Rightarrow> 'w \<Rightarrow> (string + Response) \<times> 'w"
  zip_Create :: "string \<Rightarrow> 'w \<Rightarrow> string option \<times> 'w"
  io_Copy :: "string \<Rightarrow> string \<Rightarrow> 'w \<Rightarrow> string option \<times> 'w"
  uuid_New :: "nat \<Rightarrow> string"
  SetResultURL :: "Task \<Rightarrow> Task"

text \<open>What the program does to the outside, in the order in which it does it.\<close>

datatype event =
    Log string
  | OsCreate string
  | HttpGet string
  | ZipCreate string
  | IoCopy string
  | BodyClose string
  | ZipWriterClose
  | FileClose string

text \<open>
  The variables of the loop in \<open>Process\<close>: the error messages, the names of the entries
  that the zip writer accepted, the effects so far, the stack of deferred calls (the call
  deferred last comes first) and the outside world.
\<close>

record 'w loop =
  errors :: "string list"
  entries :: "string list"
  effects :: "event list"
  deferred :: "event list"
  wld :: 'w

definition emit :: "event \<Rightarrow> 'w loop \<Rightarrow> 'w loop" where
  "emit e L = L\<lparr>effects := effects L @ [e]\<rparr>"

text \<open>A failed file: the message is logged and appended to \<open>errors\<close>.\<close>

definition file_failed :: "string \<Rightarrow> string \<Rightarrow> 'w loop \<Rightarrow> 'w loop" where
  "file_failed logged msg L = (emit (Log logged) L)\<lparr>errors := errors L @ [msg]\<rparr>"

text \<open>The body of the loop over \<open>t.FileURLs\<close>, for one URL.\<close>

definition process_file ::
  "'w env \<Rightarrow> string list \<Rightarrow> string \<Rightarrow> string \<Rightarrow> 'w loop \<Rightarrow> 'w loop" where
  "process_file E allowedExtensions tid fileURL L0 =
     (let L = emit (Log (''Processing file '' @ fileURL @ '' for task '' @ tid)) L0
      in if \<not> isAllowedExtension (url_Parse E) fileURL allowedExtensions then
           file_failed (''File extension not allowed for '' @ fileURL)
             (''file extension not allowed: '' @ fileURL) L
         else
           (case http_Get E fileURL (wld L) of
              (Inl err, w1) \<Rightarrow>
                file_failed (''Failed to download file '' @ fileURL @ '': '' @ err)
                  (''failed to download file: '' @ fileURL @ '', error: '' @ err)
                  ((emit (HttpGet fileURL) L)\<lparr>wld := w1\<rparr>)
            | (Inr resp, w1) \<Rightarrow>
                (let L1 = (emit (HttpGet fileURL) L)
                            \<lparr>wld := w1, deferred := BodyClose fileURL # deferred L\<rparr>
                 in if StatusCode resp \<noteq> 200 then
                      file_failed
                        (''Failed to download file '' @ fileURL @ '', status: '' @ StatusLine resp)
                        (''failed to download file: '' @ fileURL @ '', status: '' @ StatusLine resp)
                        L1
                    else
                      (let fileName = filepath_Base fileURL
                       in case zip_Create E fileName (wld L1) of
                            (Some err, w2) \<Rightarrow>
                              file_failed
                                (''Failed to create zip entry for '' @ fileName @ '': '' @ err)
                                (''failed to create zip entry for '' @ fileName @ '': '' @ err)
                                ((emit (ZipCreate fileName) L1)\<lparr>wld := w2\<rparr>)
                          | (None, w2) \<Rightarrow>
                              (let L2 = (emit (ZipCreate fileName) L1)
                                          \<lparr>wld := w2, entries := entries L1 @ [fileName]\<rparr>
                               in case io_Copy E fileName (Body resp) (wld L2) of
                                    (Some err, w3) \<Rightarrow>
                                      file_failed
                                        (''Failed to write to zip entry for '' @ fileName
                                           @ '': '' @ err)
                                        (''failed to write to zip entry for '' @ fileName
                                           @ '': '' @ err)
                                        ((emit (IoCopy fileName) L2)\<lparr>wld := w3\<rparr>)
                                  | (None, w3) \<Rightarrow> (emit (IoCopy fileName) L2)\<lparr>wld := w3\<rparr>)))))"

fun process_files ::
  "'w env \<Rightarrow> string list \<Rightarrow> string \<Rightarrow> string list \<Rightarrow> 'w loop \<Rightarrow> 'w loop" where
  "process_files E allowedExtensions tid [] L = L"
| "process_files E allowedExtensions tid (fileURL # rest) L =
     process_files E allowedExtensions tid rest (process_file E allowedExtensions tid fileURL L)"

section \<open>A processing pass\<close>

text \<open>
  \<open>Process\<close> touches the task in two critical sections, one at its start and one at its
  end (\<open>setError\<close> on the failure path); between them it reads \<open>t.FileURLs\<close> once,
  when the \<open>range\<close> statement is evaluated, and works on the outside world only.  The
  pass is therefore written as three functions, so that passes and requests can be
  interleaved between them; \<open>Process\<close> is their composition.
\<close>

datatype pass_result =
    ZipFailed string
  | Looped "string list" "string list" "event list"

definition Process_begin :: "Task \<Rightarrow> Task" where
  "Process_begin t = t\<lparr>Status := StatusProcessing\<rparr>"

definition begin_effects :: "Task \<Rightarrow> event list" where
  "begin_effects t = [Log (''Processing task '' @ ID t)]"

definition Process_work ::
  "'w env \<Rightarrow> string list \<Rightarrow> Task \<Rightarrow> 'w \<Rightarrow> pass_result \<times> 'w \<times> event list" where
  "Process_work E allowedExtensions t w =
     (let zipFileName = ID t @ ''.zip''
      in case os_Create E zipFileName w of
           (Some err, w1) \<Rightarrow>
             (ZipFailed err, w1,
              [OsCreate zipFileName,
               Log (''Failed to create zip file for task '' @ ID t @ '': '' @ err)])
         | (None, w1) \<Rightarrow>
             (let L = process_files E allowedExtensions (ID t) (FileURLs t)
                        \<lparr>errors = [], entries = [], effects = [OsCreate zipFileName],
                         deferred = [ZipWriterClose, FileClose zipFileName], wld = w1\<rparr>
              in (Looped (errors L) (entries L) (deferred L), wld L, effects L)))"

definition Process_commit :: "pass_result \<Rightarrow> Task \<Rightarrow> Task" where
  "Process_commit r t =
     (case r of
        ZipFailed err \<Rightarrow> setError (''failed to create zip file: '' @ err) t
      | Looped errs ents defs \<Rightarrow>
          t\<lparr>ErrorDetails := (if errs \<noteq> [] then strings_Join errs ''; '' else ErrorDetails t),
            Status := StatusDone,
            ResultURL := ''/archives/'' @ ID t @ ''.zip''\<rparr>)"

definition commit_effects :: "pass_result \<Rightarrow> Task \<Rightarrow> event list" where
  "commit_effects r t =
     (case r of
        ZipFailed err \<Rightarrow> []
      | Looped errs ents defs \<Rightarrow> Log (''Finished processing task '' @ ID t) # defs)"

definition Process ::
  "'w env \<Rightarrow> string list \<Rightarrow> Task \<Rightarrow> 'w \<Rightarrow> Task \<times> 'w \<times> event list" where
  "Process E allowedExtensions t w =
     (let t1 = Process_begin t
      in case Process_work E allowedExtensions t1 w of
           (r, w', eff) \<Rightarrow>
             (Process_commit r t1, w', begin_effects t @ eff @ commit_effects r t1))"

section \<open>The request body of the append-file call\<close>

text \<open>
  \<open>AddFileHandler\<close> decodes the body with \<open>encoding/json\<close> into a struct with the
  single string field \<open>URL\<close>, tagged \<open>url\<close>.  The body is given by the first JSON
  value it holds; \<open>None\<close> is a body that holds none (empty, or not JSON).
\<close>

datatype json =
    JNull
  | JBool bool
  | JNumber string
  | JString string
  | JArray "json list"
  | JObject "(string \<times> json) list"

text \<open>
  The members of an object, in order.  A key selects the field when it equals the tag up to
  the case of its letters; a string sets the field, \<open>null\<close> leaves it, any other value
  is a type error, which the decoder keeps and returns once the object is read.
\<close>

fun decode_fields :: "(string \<times> json) list \<Rightarrow> string \<Rightarrow> bool \<Rightarrow> string option" where
  "decode_fields [] url failed = (if failed then None else Some url)"
| "decode_fields ((k, v) # kvs) url failed =
     (if strings_ToLower k = ''url'' then
        (case v of
           JString s \<Rightarrow> decode_fields kvs s failed
         | JNull \<Rightarrow> decode_fields kvs url failed
         | _ \<Rightarrow> decode_fields kvs url True)
      else decode_fields kvs url failed)"

text \<open>
  \<open>Decode\<close>: \<open>None\<close> is a non-nil error, \<open>Some url\<close> the field \<open>body.URL\<close>
  after a decoding without error.  The field starts as the empty string.
\<close>

definition json_Decode :: "json option \<Rightarrow> string option" where
  "json_Decode body =
     (case body of
        None \<Rightarrow> None
      | Some JNull \<Rightarrow> Some []
      | Some (JObject kvs) \<Rightarrow> decode_fields kvs [] False
      | Some _ \<Rightarrow> None)"

section \<open>The task manager\<close>

record Config =
  Port :: string
  AllowedExtensions :: "string list"
  MaxFilesPerTask :: int
  MaxConcurrentTasks :: int

text \<open>
  A goroutine that runs \<open>t.Process\<close>: not yet in \<open>Process\<close>, past its first critical
  section, or past the loop with the result that its last critical section will write.
\<close>

datatype phase = Spawned | Begun | Worked pass_result

text \<open>
  The map \<open>Tasks\<close> holds pointers: \<open>heap\<close> lists the tasks allocated so far and an
  address is an index into it.  \<open>concurrentTaskSema\<close> is the number of elements in the
  channel's buffer, \<open>sendq\<close> the handlers blocked in a send on it (each by the address
  of its task, the one blocked first at the head), \<open>passes\<close> the goroutines running
  \<open>Process\<close>, each with the address of its task.
\<close>

record 'w TaskManager =
  Tasks :: "string \<rightharpoonup> nat"
  heap :: "Task list"
  concurrentTaskSema :: nat
  sendq :: "nat list"
  passes :: "(nat \<times> phase) list"
  world :: 'w
  printed :: "event list"

text \<open>\<open>make\<close> panics on a negative channel capacity.\<close>

definition NewTaskManager :: "Config \<Rightarrow> 'w \<Rightarrow> 'w TaskManager option" where
  "NewTaskManager cfg w =
     (if MaxConcurrentTasks cfg < 0 then None
      else Some \<lparr>Tasks = Map.empty, heap = [], concurrentTaskSema = 0, sendq = [],
                 passes = [], world = w, printed = []\<rparr>)"

datatype reply =
    Created_201 Task
  | Accepted_202
  | BadRequest_400 string
  | NotFound_404 string
  | ServiceUnavailable_503 string

text \<open>A handler either writes its reply or is suspended in a channel operation.\<close>

datatype outcome = Replied reply | Suspended

definition logged :: "string \<Rightarrow> 'w TaskManager \<Rightarrow> 'w TaskManager" where
  "logged msg tm = tm\<lparr>printed := printed tm @ [Log msg]\<rparr>"

definition CreateTaskHandler ::
  "Config \<Rightarrow> 'w env \<Rightarrow> 'w TaskManager \<Rightarrow> outcome \<times> 'w TaskManager" where
  "CreateTaskHandler cfg E tm0 =
     (let tm = logged ''CreateTaskHandler called'' tm0
      in if int (concurrentTaskSema tm) \<ge> MaxConcurrentTasks cfg then
           (Replied (ServiceUnavailable_503 ''server is busy, please try again later''),
            logged ''Server is busy'' tm)
         else
           (let t = NewTask (uuid_New E (length (heap tm)));
                tm1 = logged (''Created new task with ID: '' @ ID t) tm
            in (Replied (Created_201 t),
                tm1\<lparr>heap := heap tm1 @ [t], Tasks := (Tasks tm1)(ID t \<mapsto> length (heap tm1))\<rparr>)))"

definition update_task :: "nat \<Rightarrow> (Task \<Rightarrow> Task) \<Rightarrow> 'w TaskManager \<Rightarrow> 'w TaskManager" where
  "update_task a f tm = tm\<lparr>heap := (heap tm)[a := f (heap tm ! a)]\<rparr>"

text \<open>
  The statement \<open>go func() { ... t.Process(...) }()\<close>: one more goroutine, not yet run.
\<close>

definition spawn :: "nat \<Rightarrow> 'w TaskManager \<Rightarrow> 'w TaskManager" where
  "spawn a tm = tm\<lparr>passes := passes tm @ [(a, Spawned)]\<rparr>"

text \<open>
  The send \<open>tm.concurrentTaskSema <- struct{}{}\<close>: it goes through when the buffer has
  room (no goroutine ever waits in a receive, since each receive follows a send of the same
  pass); otherwise the handler is suspended in it.
\<close>

definition AddFileHandler ::
  "Config \<Rightarrow> 'w env \<Rightarrow> string \<Rightarrow> json option \<Rightarrow> 'w TaskManager \<Rightarrow> outcome \<times> 'w TaskManager" where
  "AddFileHandler cfg E taskID reqBody tm0 =
     (let tm = logged (''AddFileHandler called for task ID: '' @ taskID) tm0
      in case Tasks tm taskID of
           None \<Rightarrow>
             (Replied (NotFound_404 ''task not found''),
              logged (''Task with ID: '' @ taskID @ '' not found'') tm)
         | Some a \<Rightarrow>
             (case json_Decode reqBody of
                None \<Rightarrow>
                  (Replied (BadRequest_400 ''invalid request body''),
                   logged (''Invalid request body for task ID: '' @ taskID) tm)
              | Some url \<Rightarrow>
                  (let tm1 = update_task a (AddFile url)
                               (logged (''Adding file '' @ url @ '' to task ID: '' @ taskID) tm)
                   in if int (length (FileURLs (heap tm1 ! a))) \<ge> MaxFilesPerTask cfg then
                        (let tm2 = update_task a (SetResultURL E)
                                     (logged (''Task '' @ taskID
                                        @ '' reached max files, starting processing'') tm1)
                         in if int (concurrentTaskSema tm2) < MaxConcurrentTasks cfg then
                              (Replied Accepted_202,
                               spawn a (tm2\<lparr>concurrentTaskSema := concurrentTaskSema tm2 + 1\<rparr>))
                            else (Suspended, tm2\<lparr>sendq := sendq tm2 @ [a]\<rparr>))
                      else (Replied Accepted_202, tm1))))"

text \<open>
  The deferred receive \<open><-tm.concurrentTaskSema\<close> of a pass.  With an empty buffer it
  would block (\<open>None\<close>).  When a handler waits in a send, its element takes the place of
  the one received and the handler goes on: it starts its goroutine and replies 202.
\<close>

definition release :: "'w TaskManager \<Rightarrow> 'w TaskManager option" where
  "release tm =
     (if concurrentTaskSema tm = 0 then None
      else case sendq tm of
             [] \<Rightarrow> Some (tm\<lparr>concurrentTaskSema := concurrentTaskSema tm - 1\<rparr>)
           | a # waiting \<Rightarrow> Some (spawn a (tm\<lparr>sendq := waiting\<rparr>)))"

text \<open>One step of the goroutine at position \<open>i\<close> of \<open>passes\<close>.\<close>

definition pass_step :: "Config \<Rightarrow> 'w env \<Rightarrow> nat \<Rightarrow> 'w TaskManager \<Rightarrow> 'w TaskManager option" where
  "pass_step cfg E i tm =
     (if i \<ge> length (passes tm) then None
      else case passes tm ! i of
             (a, Spawned) \<Rightarrow>
               Some ((update_task a Process_begin tm)
                       \<lparr>passes := (passes tm)[i := (a, Begun)],
                        printed := printed tm @ begin_effects (heap tm ! a)\<rparr>)
           | (a, Begun) \<Rightarrow>
               (case Process_work E (AllowedExtensions cfg) (heap tm ! a) (world tm) of
                  (r, w', eff) \<Rightarrow>
                    Some (tm\<lparr>passes := (passes tm)[i := (a, Worked r)],
                             world := w', printed := printed tm @ eff\<rparr>))
           | (a, Worked r) \<Rightarrow>
               release ((update_task a (Process_commit r) tm)
                          \<lparr>passes := take i (passes tm) @ drop (Suc i) (passes tm),
                           printed := printed tm @ commit_effects r (heap tm ! a)\<rparr>))"

text \<open>
  What can happen next: a request arrives, or a goroutine of a pass takes a step.  A handler
  runs as one step up to its reply or to the send that suspends it; the last critical
  section of a pass and the release of its slot are one step.
\<close>

datatype action =
    CreateTask
  | AppendFile string "json option"
  | PassStep nat

definition step :: "Config \<Rightarrow> 'w env \<Rightarrow> action \<Rightarrow> 'w TaskManager \<Rightarrow> 'w TaskManager option" where
  "step cfg E act tm =
     (case act of
        CreateTask \<Rightarrow> Some (snd (CreateTaskHandler cfg E tm))
      | AppendFile taskID reqBody \<Rightarrow> Some (snd (AddFileHandler cfg E taskID reqBody tm))
      | PassStep i \<Rightarrow> pass_step cfg E i tm)"

fun run :: "Config \<Rightarrow> 'w env \<Rightarrow> action list \<Rightarrow> 'w TaskManager \<Rightarrow> 'w TaskManager option" where
  "run cfg E [] tm = Some tm"
| "run cfg E (act # acts) tm =
     (case step cfg E act tm of None \<Rightarrow> None | Some tm' \<Rightarrow> run cfg E acts tm')"

section \<open>The reading of the spec that the filter is compared with\<close>


text \<open>
  The moves of a task's status from one state of the task manager to the next that the
  program can make: none, to \<open>processing\<close> from anywhere, and to \<open>done\<close> or
  \<open>error\<close> from anywhere but \<open>created\<close>.
\<close>

definition status_moves :: "Status \<Rightarrow> Status \<Rightarrow> bool" where
  "status_moves old new =
     (new = old \<or> new = StatusProcessing
      \<or> (old \<noteq> StatusCreated \<and> (new = StatusDone \<or> new = StatusError)))"


section \<open>A concrete environment\<close>

text \<open>
  The environment in which the theorems below are instantiated.  Its state counts the
  calls of \<open>os.Create\<close>: the first one fails, the later ones succeed.  The parser is
  given by what \<open>url.Parse\<close> returns on the URLs used.
\<close>

definition demo_Parse :: "string \<Rightarrow> URL option" where
  "demo_Parse s =
     (if s = ''http://h/a.png'' then Some \<lparr>Path = ''/a.png'', Query = []\<rparr>
      else if s = ''http://h/b.PNG'' then Some \<lparr>Path = ''/b.PNG'', Query = []\<rparr>
      else if s = ''http://h/c.png?v=1'' then Some \<lparr>Path = ''/c.png'', Query = [(''v'', [''1''])]\<rparr>
      else if s = ''http://h/get?f=d.png'' then Some \<lparr>Path = ''/get'', Query = [(''f'', [''d.png''])]\<rparr>
      else if s = ''http://h/e.exe'' then Some \<lparr>Path = ''/e.exe'', Query = []\<rparr>
      else if s = ''http://h/file'' then Some \<lparr>Path = ''/file'', Query = []\<rparr>
      else if s = ''http://down/g.png'' then Some \<lparr>Path = ''/g.png'', Query = []\<rparr>
      else if s = [] then Some \<lparr>Path = [], Query = []\<rparr>
      else None)"

definition demo_Get :: "string \<Rightarrow> nat \<Rightarrow> (string + Response) \<times> nat" where
  "demo_Get s w =
     (if s = ''http://down/g.png'' then (Inl ''dial tcp: connection refused'', w)
      else if s = ''http://h/b.PNG''
        then (Inr \<lparr>StatusCode = 206, StatusLine = ''206 Partial Content'', Body = ''b''\<rparr>, w)
      else (Inr \<lparr>StatusCode = 200, StatusLine = ''200 OK'', Body = ''data''\<rparr>, w))"

definition demo_env :: "nat env" where
  "demo_env =
     \<lparr>url_Parse = demo_Parse,
      os_Create = (\<lambda>name w. (if w = 0 then Some ''permission denied'' else None, Suc w)),
      http_Get = demo_Get,
      zip_Create = (\<lambda>name w. (None, w)),
      io_Copy = (\<lambda>name content w. (None, w)),
      uuid_New = (\<lambda>n. replicate (Suc n) CHR ''u''),
      SetResultURL = (\<lambda>t. t\<lparr>ResultURL := ''/archives/'' @ ID t @ ''.zip''\<rparr>)\<rparr>"

definition demo_cfg :: Config where
  "demo_cfg =
     \<lparr>Port = ''8080'', AllowedExtensions = [''.png''], MaxFilesPerTask = 1,
      MaxConcurrentTasks = 1\<rparr>"

definition demo_tm :: "nat \<Rightarrow> nat TaskManager" where
  "demo_tm w =
     \<lparr>Tasks = Map.empty, heap = [], concurrentTaskSema = 0, sendq = [], passes = [],
      world = w, printed = []\<rparr>"

text \<open>A request body that is the JSON object with the one member \<open>url\<close>.\<close>

definition url_body :: "string \<Rightarrow> json option" where
  "url_body s = Some (JObject [(''url'', JString s)])"

text \<open>
  Three states of the task manager under \<open>demo_cfg\<close> (one slot, threshold one), each
  reached from \<open>demo_tm 1\<close>: with two tasks and the pass of the first one started, so
  that the only slot is taken; with one task whose pass is past its loop; and with that pass
  finished.
\<close>

definition demo_busy :: "nat TaskManager" where
  "demo_busy =
     \<lparr>Tasks = [''u'' \<mapsto> 0, ''uu'' \<mapsto> 1],
      heap =
        [\<lparr>ID = ''u'', Status = StatusCreated, FileURLs = [''http://h/a.png''],
          ResultURL = ''/archives/u.zip'', ErrorDetails = []\<rparr>,
         \<lparr>ID = ''uu'', Status = StatusCreated, FileURLs = [], ResultURL = [],
          ErrorDetails = []\<rparr>],
      concurrentTaskSema = 1, sendq = [], passes = [(0, Spawned)], world = 1,
      printed =
        [Log ''CreateTaskHandler called'',
         Log ''Created new task with ID: u'',
         Log ''CreateTaskHandler called'',
         Log ''Created new task with ID: uu'',
         Log ''AddFileHandler called for task ID: u'',
         Log ''Adding file http://h/a.png to task ID: u'',
         Log ''Task u reached max files, starting processing'']\<rparr>"

definition demo_worked :: "nat TaskManager" where
  "demo_worked =
     \<lparr>Tasks = [''u'' \<mapsto> 0],
      heap =
        [\<lparr>ID = ''u'', Status = StatusProcessing, FileURLs = [''http://h/a.png''],
          ResultURL = ''/archives/u.zip'', ErrorDetails = []\<rparr>],
      concurrentTaskSema = 1, sendq = [],
      passes =
        [(0, Worked (Looped [] [''a.png'']
               [BodyClose ''http://h/a.png'', ZipWriterClose, FileClose ''u.zip'']))],
      world = 2,
      printed =
        [Log ''CreateTaskHandler called'',
         Log ''Created new task with ID: u'',
         Log ''AddFileHandler called for task ID: u'',
         Log ''Adding file http://h/a.png to task ID: u'',
         Log ''Task u reached max files, starting processing'',
         Log ''Processing task u'', OsCreate ''u.zip'',
         Log ''Processing file http://h/a.png for task u'',
         HttpGet ''http://h/a.png'', ZipCreate ''a.png'', IoCopy ''a.png'']\<rparr>"

definition demo_done :: "nat TaskManager" where
  "demo_done =
     \<lparr>Tasks = [''u'' \<mapsto> 0],
      heap =
        [\<lparr>ID = ''u'', Status = StatusDone, FileURLs = [''http://h/a.png''],
          ResultURL = ''/archives/u.zip'', ErrorDetails = []\<rparr>],
      concurrentTaskSema = 0, sendq = [], passes = [], world = 2,
      printed =
        [Log ''CreateTaskHandler called'',
         Log ''Created new task with ID: u'',
         Log ''AddFileHandler called for task ID: u'',
         Log ''Adding file http://h/a.png to task ID: u'',
         Log ''Task u reached max files, starting processing'',
         Log ''Processing task u'', OsCreate ''u.zip'',
         Log ''Processing file http://h/a.png for task u'',
         HttpGet ''http://h/a.png'', ZipCreate ''a.png'', IoCopy ''a.png'',
         Log ''Finished processing task u'', BodyClose ''http://h/a.png'',
         ZipWriterClose, FileClose ''u.zip'']\<rparr>"

text \<open>
  What holds in every state that the task manager reaches: the addresses in \<open>Tasks\<close>,
  \<open>sendq\<close> and \<open>passes\<close> are allocated, and the task of a pass that is past its
  first critical section no longer has the status \<open>created\<close>.
\<close>

definition wf_tm :: "'w TaskManager \<Rightarrow> bool" where
  "wf_tm tm =
     ((\<forall>taskID a. Tasks tm taskID = Some a \<longrightarrow> a < length (heap tm))
      \<and> (\<forall>a \<in> set (sendq tm). a < length (heap tm))
      \<and> (\<forall>(a, ph) \<in> set (passes tm).
            a < length (heap tm)
            \<and> (ph \<noteq> Spawned \<longrightarrow> Status (heap tm ! a) \<noteq> StatusCreated)))"

section \<open>The extension filter: proofs\<close>








lemma lower_png: "strings_ToLower ''.png'' = ''.png''"
  by (simp add: strings_ToLower_def)

lemma lower_PNG: "strings_ToLower ''.PNG'' = ''.png''"
  by code_simp

lemma lower_exe: "strings_ToLower ''.exe'' = ''.exe''"
  by (simp add: strings_ToLower_def)

lemma allowed_a_png: "isAllowedExtension demo_Parse ''http://h/a.png'' [''.png'']"
  by (simp add: isAllowedExtension_def demo_Parse_def filepath_Ext_def lower_png)

lemma allowed_b_PNG: "isAllowedExtension demo_Parse ''http://h/b.PNG'' [''.png'']"
  by (simp add: isAllowedExtension_def demo_Parse_def filepath_Ext_def lower_PNG)

lemma allowed_c_png: "isAllowedExtension demo_Parse ''http://h/c.png?v=1'' [''.png'']"
  by (simp add: isAllowedExtension_def demo_Parse_def filepath_Ext_def lower_png)

lemma allowed_g_png: "isAllowedExtension demo_Parse ''http://down/g.png'' [''.png'']"
  by (simp add: isAllowedExtension_def demo_Parse_def filepath_Ext_def lower_png)

lemma refused_e_exe: "\<not> isAllowedExtension demo_Parse ''http://h/e.exe'' [''.png'']"
  by (simp add: isAllowedExtension_def demo_Parse_def filepath_Ext_def lower_exe)

section \<open>A processing pass: proofs\<close>




text \<open>
  C10.  A fetch that returns a response whose status code is not 200 (201 and 206
  included) is a failure of that file: the message \<open>failed to download file\<close> with the
  status line is appended to the error list, no entry is added to the archive, and the
  only effects are the fetch and the two log lines.
\<close>

theorem non_200_is_failure:
  assumes "isAllowedExtension (url_Parse E) fileURL allowed"
    and "http_Get E fileURL (wld L) = (Inr resp, w1)"
    and "StatusCode resp \<noteq> 200"
  shows "errors (process_file E allowed tid fileURL L) =
           errors L @ [''failed to download file: '' @ fileURL @ '', status: '' @ StatusLine resp]
         \<and> entries (process_file E allowed tid fileURL L) = entries L
         \<and> effects (process_file E allowed tid fileURL L) =
             effects L @
               [Log (''Processing file '' @ fileURL @ '' for task '' @ tid),
                HttpGet fileURL,
                Log (''Failed to download file '' @ fileURL @ '', status: '' @ StatusLine resp)]
         \<and> wld (process_file E allowed tid fileURL L) = w1"
  using assms by (simp add: process_file_def Let_def emit_def file_failed_def)

theorem non_200_is_failure_witness:
  "isAllowedExtension (url_Parse demo_env) ''http://h/b.PNG'' [''.png'']
   \<and> http_Get demo_env ''http://h/b.PNG''
        (wld \<lparr>errors = [], entries = [], effects = [], deferred = [], wld = Suc 0\<rparr>)
      = (Inr \<lparr>StatusCode = 206, StatusLine = ''206 Partial Content'', Body = ''b''\<rparr>, Suc 0)
   \<and> StatusCode \<lparr>StatusCode = 206, StatusLine = ''206 Partial Content'', Body = ''b''\<rparr> \<noteq> 200
   \<and> errors (process_file demo_env [''.png''] ''u'' ''http://h/b.PNG''
        \<lparr>errors = [], entries = [], effects = [], deferred = [], wld = Suc 0\<rparr>)
      = [''failed to download file: http://h/b.PNG, status: 206 Partial Content'']
   \<and> entries (process_file demo_env [''.png''] ''u'' ''http://h/b.PNG''
        \<lparr>errors = [], entries = [], effects = [], deferred = [], wld = Suc 0\<rparr>) = []"
proof -
  have h1: "isAllowedExtension (url_Parse demo_env) ''http://h/b.PNG'' [''.png'']"
    by (simp add: demo_env_def allowed_b_PNG)
  have h2: "http_Get demo_env ''http://h/b.PNG''
        (wld \<lparr>errors = [], entries = [], effects = [], deferred = [], wld = Suc 0\<rparr>)
      = (Inr \<lparr>StatusCode = 206, StatusLine = ''206 Partial Content'', Body = ''b''\<rparr>, Suc 0)"
    by (simp add: demo_env_def demo_Get_def)
  have h3: "StatusCode \<lparr>StatusCode = 206, StatusLine = ''206 Partial Content'', Body = ''b''\<rparr>
            \<noteq> 200"
    by simp
  show ?thesis
    using h1 h2 h3 non_200_is_failure [OF h1 h2 h3, of "''u''"] by simp
qed

text \<open>
  C5.  When the archive file cannot be created, the pass ends with the status \<open>error\<close>
  and the creation failure as the only error detail; its effects are the log line of the
  start, the failed \<open>os.Create\<close> and the log line of the failure, so no URL is looked
  at and nothing is fetched, and the outside world is the one that \<open>os.Create\<close> left.
\<close>

theorem zip_creation_failure_is_fatal:
  assumes "os_Create E (ID t @ ''.zip'') w = (Some err, w1)"
  shows "Process E allowed t w =
           (t\<lparr>Status := StatusError, ErrorDetails := ''failed to create zip file: '' @ err\<rparr>,
            w1,
            [Log (''Processing task '' @ ID t),
             OsCreate (ID t @ ''.zip''),
             Log (''Failed to create zip file for task '' @ ID t @ '': '' @ err)])"
  using assms
  by (simp add: Process_def Process_begin_def Process_work_def Process_commit_def
      begin_effects_def commit_effects_def setError_def Let_def)

theorem zip_creation_failure_is_fatal_witness:
  "os_Create demo_env
      (ID \<lparr>ID = ''u'', Status = StatusCreated, FileURLs = [''http://h/a.png''],
           ResultURL = [], ErrorDetails = []\<rparr> @ ''.zip'') 0
     = (Some ''permission denied'', Suc 0)
   \<and> Process demo_env [''.png'']
        \<lparr>ID = ''u'', Status = StatusCreated, FileURLs = [''http://h/a.png''],
         ResultURL = [], ErrorDetails = []\<rparr> 0
     = (\<lparr>ID = ''u'', Status = StatusError, FileURLs = [''http://h/a.png''],
         ResultURL = [], ErrorDetails = ''failed to create zip file: permission denied''\<rparr>,
        Suc 0,
        [Log ''Processing task u'', OsCreate ''u.zip'',
         Log ''Failed to create zip file for task u: permission denied''])"
proof -
  have h: "os_Create demo_env
      (ID \<lparr>ID = ''u'', Status = StatusCreated, FileURLs = [''http://h/a.png''],
           ResultURL = [], ErrorDetails = []\<rparr> @ ''.zip'') 0
     = (Some ''permission denied'', Suc 0)"
    by (simp add: demo_env_def)
  show ?thesis
    using h zip_creation_failure_is_fatal [OF h, of "[''.png'']"] by simp
qed

section \<open>The task manager: proofs\<close>

lemma wf_tmI:
  assumes "\<And>taskID a. Tasks tm taskID = Some a \<Longrightarrow> a < length (heap tm)"
    and "\<And>a. a \<in> set (sendq tm) \<Longrightarrow> a < length (heap tm)"
    and "\<And>a ph. (a, ph) \<in> set (passes tm) \<Longrightarrow> a < length (heap tm)"
    and "\<And>a ph. (a, ph) \<in> set (passes tm) \<Longrightarrow> ph \<noteq> Spawned
           \<Longrightarrow> Status (heap tm ! a) \<noteq> StatusCreated"
  shows "wf_tm tm"
  using assms unfolding wf_tm_def by blast

lemma wf_tm_Tasks: "wf_tm tm \<Longrightarrow> Tasks tm taskID = Some a \<Longrightarrow> a < length (heap tm)"
  unfolding wf_tm_def by blast

lemma wf_tm_sendq: "wf_tm tm \<Longrightarrow> a \<in> set (sendq tm) \<Longrightarrow> a < length (heap tm)"
  unfolding wf_tm_def by blast

lemma wf_tm_passes: "wf_tm tm \<Longrightarrow> (a, ph) \<in> set (passes tm) \<Longrightarrow> a < length (heap tm)"
  unfolding wf_tm_def by blast

lemma wf_tm_begun:
  "wf_tm tm \<Longrightarrow> (a, ph) \<in> set (passes tm) \<Longrightarrow> ph \<noteq> Spawned
     \<Longrightarrow> Status (heap tm ! a) \<noteq> StatusCreated"
  unfolding wf_tm_def by blast

lemma wf_NewTaskManager: "NewTaskManager cfg w = Some tm \<Longrightarrow> wf_tm tm"
  by (auto simp: NewTaskManager_def wf_tm_def split: if_splits)

lemma Create_fields:
  "Tasks (snd (CreateTaskHandler cfg E tm)) =
     (if int (concurrentTaskSema tm) \<ge> MaxConcurrentTasks cfg then Tasks tm
      else (Tasks tm)(uuid_New E (length (heap tm)) \<mapsto> length (heap tm)))"
  "heap (snd (CreateTaskHandler cfg E tm)) =
     (if int (concurrentTaskSema tm) \<ge> MaxConcurrentTasks cfg then heap tm
      else heap tm @ [NewTask (uuid_New E (length (heap tm)))])"
  "sendq (snd (CreateTaskHandler cfg E tm)) = sendq tm"
  "passes (snd (CreateTaskHandler cfg E tm)) = passes tm"
  "concurrentTaskSema (snd (CreateTaskHandler cfg E tm)) = concurrentTaskSema tm"
  by (simp_all add: CreateTaskHandler_def logged_def Let_def NewTask_def)

lemma wf_Create:
  assumes "wf_tm tm"
  shows "wf_tm (snd (CreateTaskHandler cfg E tm))"
proof (cases "int (concurrentTaskSema tm) \<ge> MaxConcurrentTasks cfg")
  case True
  with assms show ?thesis by (simp add: wf_tm_def Create_fields)
next
  case False
  show ?thesis
  proof (rule wf_tmI)
    fix taskID a
    assume "Tasks (snd (CreateTaskHandler cfg E tm)) taskID = Some a"
    with False assms show "a < length (heap (snd (CreateTaskHandler cfg E tm)))"
      by (auto simp: Create_fields less_Suc_eq dest: wf_tm_Tasks split: if_splits)
  next
    fix a
    assume "a \<in> set (sendq (snd (CreateTaskHandler cfg E tm)))"
    with False assms show "a < length (heap (snd (CreateTaskHandler cfg E tm)))"
      by (auto simp: Create_fields less_Suc_eq dest: wf_tm_sendq)
  next
    fix a ph
    assume "(a, ph) \<in> set (passes (snd (CreateTaskHandler cfg E tm)))"
    with False assms show "a < length (heap (snd (CreateTaskHandler cfg E tm)))"
      by (auto simp: Create_fields less_Suc_eq dest: wf_tm_passes)
  next
    fix a ph
    assume "(a, ph) \<in> set (passes (snd (CreateTaskHandler cfg E tm)))" and "ph \<noteq> Spawned"
    then have "(a, ph) \<in> set (passes tm)" by (simp add: Create_fields)
    with assms \<open>ph \<noteq> Spawned\<close> have "a < length (heap tm)"
      and "Status (heap tm ! a) \<noteq> StatusCreated"
      by (auto dest: wf_tm_passes wf_tm_begun)
    with False show "Status (heap (snd (CreateTaskHandler cfg E tm)) ! a) \<noteq> StatusCreated"
      by (simp add: Create_fields nth_append)
  qed
qed

lemma AddFileHandler_known:
  assumes "Tasks tm taskID = Some a" and "a < length (heap tm)"
    and "json_Decode reqBody = Some url"
  shows "fst (AddFileHandler cfg E taskID reqBody tm) =
           (if MaxFilesPerTask cfg \<le> int (length (FileURLs (heap tm ! a))) + 1
               \<and> \<not> int (concurrentTaskSema tm) < MaxConcurrentTasks cfg
            then Suspended else Replied Accepted_202)"
    and "heap (snd (AddFileHandler cfg E taskID reqBody tm)) =
           (heap tm)[a := (if MaxFilesPerTask cfg \<le> int (length (FileURLs (heap tm ! a))) + 1
                           then SetResultURL E (AddFile url (heap tm ! a))
                           else AddFile url (heap tm ! a))]"
    and "passes (snd (AddFileHandler cfg E taskID reqBody tm)) =
           (if MaxFilesPerTask cfg \<le> int (length (FileURLs (heap tm ! a))) + 1
               \<and> int (concurrentTaskSema tm) < MaxConcurrentTasks cfg
            then passes tm @ [(a, Spawned)] else passes tm)"
    and "sendq (snd (AddFileHandler cfg E taskID reqBody tm)) =
           (if MaxFilesPerTask cfg \<le> int (length (FileURLs (heap tm ! a))) + 1
               \<and> \<not> int (concurrentTaskSema tm) < MaxConcurrentTasks cfg
            then sendq tm @ [a] else sendq tm)"
    and "concurrentTaskSema (snd (AddFileHandler cfg E taskID reqBody tm)) =
           (if MaxFilesPerTask cfg \<le> int (length (FileURLs (heap tm ! a))) + 1
               \<and> int (concurrentTaskSema tm) < MaxConcurrentTasks cfg
            then Suc (concurrentTaskSema tm) else concurrentTaskSema tm)"
    and "Tasks (snd (AddFileHandler cfg E taskID reqBody tm)) = Tasks tm"
    and "world (snd (AddFileHandler cfg E taskID reqBody tm)) = world tm"
  using assms
  by (simp_all add: AddFileHandler_def logged_def update_task_def spawn_def AddFile_def Let_def)


lemma AddFileHandler_state_unknown:
  assumes "Tasks tm taskID = None \<or> json_Decode reqBody = None"
  shows "heap (snd (AddFileHandler cfg E taskID reqBody tm)) = heap tm"
    and "passes (snd (AddFileHandler cfg E taskID reqBody tm)) = passes tm"
    and "sendq (snd (AddFileHandler cfg E taskID reqBody tm)) = sendq tm"
    and "Tasks (snd (AddFileHandler cfg E taskID reqBody tm)) = Tasks tm"
    and "concurrentTaskSema (snd (AddFileHandler cfg E taskID reqBody tm)) = concurrentTaskSema tm"
  using assms
  by (auto simp: AddFileHandler_def logged_def Let_def split: option.splits)

lemma wf_AddFile:
  assumes wf: "wf_tm tm" and keep: "\<And>t. Status (SetResultURL E t) = Status t"
  shows "wf_tm (snd (AddFileHandler cfg E taskID reqBody tm))"
proof (cases "Tasks tm taskID = None \<or> json_Decode reqBody = None")
  case True
  with wf show ?thesis
    by (simp add: wf_tm_def AddFileHandler_state_unknown)
next
  case False
  then obtain a url where a: "Tasks tm taskID = Some a" and url: "json_Decode reqBody = Some url"
    by auto
  from wf a have alt: "a < length (heap tm)" by (rule wf_tm_Tasks)
  note known = AddFileHandler_known [OF a alt url, of cfg E]
  show ?thesis
  proof (rule wf_tmI)
    fix taskID' b
    assume "Tasks (snd (AddFileHandler cfg E taskID reqBody tm)) taskID' = Some b"
    with wf show "b < length (heap (snd (AddFileHandler cfg E taskID reqBody tm)))"
      by (auto simp: known dest: wf_tm_Tasks)
  next
    fix b
    assume "b \<in> set (sendq (snd (AddFileHandler cfg E taskID reqBody tm)))"
    with wf alt show "b < length (heap (snd (AddFileHandler cfg E taskID reqBody tm)))"
      by (auto simp: known dest: wf_tm_sendq split: if_splits)
  next
    fix b ph
    assume "(b, ph) \<in> set (passes (snd (AddFileHandler cfg E taskID reqBody tm)))"
    with wf alt show "b < length (heap (snd (AddFileHandler cfg E taskID reqBody tm)))"
      by (auto simp: known dest: wf_tm_passes split: if_splits)
  next
    fix b ph
    assume in_p: "(b, ph) \<in> set (passes (snd (AddFileHandler cfg E taskID reqBody tm)))"
      and ph: "ph \<noteq> Spawned"
    then have old: "(b, ph) \<in> set (passes tm)"
      by (auto simp: known split: if_splits)
    with wf ph have blt: "b < length (heap tm)" and st: "Status (heap tm ! b) \<noteq> StatusCreated"
      by (auto dest: wf_tm_passes wf_tm_begun)
    show "Status (heap (snd (AddFileHandler cfg E taskID reqBody tm)) ! b) \<noteq> StatusCreated"
      using blt st alt by (simp add: known nth_list_update keep AddFile_def)
  qed
qed


lemma release_fields:
  assumes "release tm = Some tm'"
  shows "heap tm' = heap tm" and "Tasks tm' = Tasks tm"
    and "set (sendq tm') \<subseteq> set (sendq tm)"
    and "set (passes tm') \<subseteq> set (passes tm) \<union> {(a, Spawned) | a. a \<in> set (sendq tm)}"
  using assms
  by (auto simp: release_def spawn_def split: if_splits list.splits)

lemma wf_release:
  assumes "wf_tm tm" and "release tm = Some tm'"
  shows "wf_tm tm'"
proof (rule wf_tmI)
  fix taskID a
  assume "Tasks tm' taskID = Some a"
  with assms show "a < length (heap tm')"
    by (auto simp: release_fields(1,2) [OF assms(2)] dest: wf_tm_Tasks)
next
  fix a
  assume "a \<in> set (sendq tm')"
  with release_fields(3) [OF assms(2)] have "a \<in> set (sendq tm)" by blast
  with assms show "a < length (heap tm')"
    by (auto simp: release_fields(1) [OF assms(2)] dest: wf_tm_sendq)
next
  fix a ph
  assume "(a, ph) \<in> set (passes tm')"
  with release_fields(4) [OF assms(2)]
  have "(a, ph) \<in> set (passes tm) \<or> a \<in> set (sendq tm)" by blast
  with assms show "a < length (heap tm')"
    by (auto simp: release_fields(1) [OF assms(2)] dest: wf_tm_sendq wf_tm_passes)
next
  fix a ph
  assume "(a, ph) \<in> set (passes tm')" and ph: "ph \<noteq> Spawned"
  with release_fields(4) [OF assms(2)] have "(a, ph) \<in> set (passes tm)" by blast
  with assms ph show "Status (heap tm' ! a) \<noteq> StatusCreated"
    by (auto simp: release_fields(1) [OF assms(2)] dest: wf_tm_begun)
qed

lemma Process_commit_status: "Status (Process_commit r t) \<noteq> StatusCreated"
  by (simp add: Process_commit_def setError_def split: pass_result.splits)

lemma wf_pass_step:
  assumes wf: "wf_tm tm" and st: "pass_step cfg E i tm = Some tm'"
  shows "wf_tm tm'"
proof -
  from st have i: "i < length (passes tm)"
    by (auto simp: pass_step_def split: if_splits)
  obtain a ph where p: "passes tm ! i = (a, ph)" by (cases "passes tm ! i")
  with i have mem: "(a, ph) \<in> set (passes tm)" by (metis nth_mem)
  with wf have alt: "a < length (heap tm)" by (rule wf_tm_passes)
  show ?thesis
  proof (cases ph)
    case Spawned
    with st i p have tm': "tm' = (update_task a Process_begin tm)
                       \<lparr>passes := (passes tm)[i := (a, Begun)],
                        printed := printed tm @ begin_effects (heap tm ! a)\<rparr>"
      by (simp add: pass_step_def)
    show ?thesis
    proof (rule wf_tmI)
      fix taskID b assume "Tasks tm' taskID = Some b"
      with wf show "b < length (heap tm')"
        by (auto simp: tm' update_task_def dest: wf_tm_Tasks)
    next
      fix b assume "b \<in> set (sendq tm')"
      with wf show "b < length (heap tm')"
        by (auto simp: tm' update_task_def dest: wf_tm_sendq)
    next
      fix b ph' assume "(b, ph') \<in> set (passes tm')"
      then have "(b, ph') = (a, Begun) \<or> (b, ph') \<in> set (passes tm)"
        using set_update_subset_insert [of "passes tm" i "(a, Begun)"]
        by (auto simp: tm' update_task_def)
      with wf alt show "b < length (heap tm')"
        by (auto simp: tm' update_task_def dest: wf_tm_passes)
    next
      fix b ph' assume in_p: "(b, ph') \<in> set (passes tm')" and ph': "ph' \<noteq> Spawned"
      then have disj: "(b, ph') = (a, Begun) \<or> (b, ph') \<in> set (passes tm)"
        using set_update_subset_insert [of "passes tm" i "(a, Begun)"]
        by (auto simp: tm' update_task_def)
      show "Status (heap tm' ! b) \<noteq> StatusCreated"
      proof (cases "b = a")
        case True
        with alt show ?thesis
          by (simp add: tm' update_task_def Process_begin_def)
      next
        case False
        with disj have "(b, ph') \<in> set (passes tm)" by auto
        with wf ph' have "Status (heap tm ! b) \<noteq> StatusCreated" by (auto dest: wf_tm_begun)
        with False show ?thesis by (simp add: tm' update_task_def)
      qed
    qed
  next
    case Begun
    obtain r w' eff where work:
      "Process_work E (AllowedExtensions cfg) (heap tm ! a) (world tm) = (r, w', eff)"
      by (cases "Process_work E (AllowedExtensions cfg) (heap tm ! a) (world tm)")
    with Begun st i p have tm': "tm' = tm\<lparr>passes := (passes tm)[i := (a, Worked r)],
                             world := w', printed := printed tm @ eff\<rparr>"
      by (simp add: pass_step_def)
    from wf mem Begun have sa: "Status (heap tm ! a) \<noteq> StatusCreated"
      by (auto dest: wf_tm_begun)
    show ?thesis
    proof (rule wf_tmI)
      fix taskID b assume "Tasks tm' taskID = Some b"
      with wf show "b < length (heap tm')"
        by (auto simp: tm' dest: wf_tm_Tasks)
    next
      fix b assume "b \<in> set (sendq tm')"
      with wf show "b < length (heap tm')"
        by (auto simp: tm' dest: wf_tm_sendq)
    next
      fix b ph' assume "(b, ph') \<in> set (passes tm')"
      then have "(b, ph') = (a, Worked r) \<or> (b, ph') \<in> set (passes tm)"
        using set_update_subset_insert [of "passes tm" i "(a, Worked r)"]
        by (auto simp: tm')
      with wf alt show "b < length (heap tm')"
        by (auto simp: tm' dest: wf_tm_passes)
    next
      fix b ph' assume in_p: "(b, ph') \<in> set (passes tm')" and ph': "ph' \<noteq> Spawned"
      then have "(b, ph') = (a, Worked r) \<or> (b, ph') \<in> set (passes tm)"
        using set_update_subset_insert [of "passes tm" i "(a, Worked r)"]
        by (auto simp: tm')
      with wf ph' sa show "Status (heap tm' ! b) \<noteq> StatusCreated"
        by (auto simp: tm' dest: wf_tm_begun)
    qed
  next
    case (Worked r)
    define tm1 where "tm1 = (update_task a (Process_commit r) tm)
                          \<lparr>passes := take i (passes tm) @ drop (Suc i) (passes tm),
                           printed := printed tm @ commit_effects r (heap tm ! a)\<rparr>"
    from Worked st i p have rel: "release tm1 = Some tm'"
      by (simp add: pass_step_def tm1_def)
    have "wf_tm tm1"
    proof (rule wf_tmI)
      fix taskID b assume "Tasks tm1 taskID = Some b"
      with wf show "b < length (heap tm1)"
        by (auto simp: tm1_def update_task_def dest: wf_tm_Tasks)
    next
      fix b assume "b \<in> set (sendq tm1)"
      with wf show "b < length (heap tm1)"
        by (auto simp: tm1_def update_task_def dest: wf_tm_sendq)
    next
      fix b ph' assume "(b, ph') \<in> set (passes tm1)"
      then have "(b, ph') \<in> set (passes tm)"
        by (auto simp: tm1_def update_task_def dest: in_set_takeD in_set_dropD)
      with wf show "b < length (heap tm1)"
        by (auto simp: tm1_def update_task_def dest: wf_tm_passes)
    next
      fix b ph' assume "(b, ph') \<in> set (passes tm1)" and ph': "ph' \<noteq> Spawned"
      then have old: "(b, ph') \<in> set (passes tm)"
        by (auto simp: tm1_def update_task_def dest: in_set_takeD in_set_dropD)
      show "Status (heap tm1 ! b) \<noteq> StatusCreated"
      proof (cases "b = a")
        case True
        with alt show ?thesis
          by (simp add: tm1_def update_task_def Process_commit_status)
      next
        case False
        from wf old ph' have "Status (heap tm ! b) \<noteq> StatusCreated" by (auto dest: wf_tm_begun)
        with False show ?thesis by (simp add: tm1_def update_task_def)
      qed
    qed
    then show ?thesis using rel by (rule wf_release)
  qed
qed

lemma wf_step:
  assumes "wf_tm tm" and "\<And>t. Status (SetResultURL E t) = Status t"
    and "step cfg E act tm = Some tm'"
  shows "wf_tm tm'"
proof (cases act)
  case CreateTask
  with assms show ?thesis by (auto simp: step_def intro: wf_Create)
next
  case (AppendFile taskID reqBody)
  with assms(3) have "tm' = snd (AddFileHandler cfg E taskID reqBody tm)"
    by (simp add: step_def)
  with assms(1,2) show ?thesis by (simp add: wf_AddFile)
next
  case (PassStep i)
  with assms show ?thesis by (auto simp: step_def intro: wf_pass_step)
qed

lemma wf_run:
  assumes "wf_tm tm" and "\<And>t. Status (SetResultURL E t) = Status t"
    and "run cfg E acts tm = Some tm'"
  shows "wf_tm tm'"
  using assms(1,3)
proof (induction acts arbitrary: tm)
  case Nil
  then show ?case by simp
next
  case (Cons act acts)
  from Cons.prems(2) obtain tm1 where s1: "step cfg E act tm = Some tm1"
    and r1: "run cfg E acts tm1 = Some tm'"
    by (auto split: option.splits)
  from Cons.prems(1) assms(2) s1 have "wf_tm tm1" by (rule wf_step)
  then show ?case using r1 by (rule Cons.IH)
qed


lemma pass_step_heap:
  assumes "pass_step cfg E i tm = Some tm'"
  shows "\<exists>a ph. i < length (passes tm) \<and> passes tm ! i = (a, ph)
           \<and> heap tm' =
               (case ph of
                  Spawned \<Rightarrow> (heap tm)[a := Process_begin (heap tm ! a)]
                | Begun \<Rightarrow> heap tm
                | Worked r \<Rightarrow> (heap tm)[a := Process_commit r (heap tm ! a)])"
proof -
  from assms have i: "i < length (passes tm)"
    by (auto simp: pass_step_def split: if_splits)
  obtain a ph where p: "passes tm ! i = (a, ph)" by (cases "passes tm ! i")
  show ?thesis
  proof (cases ph)
    case Spawned
    with assms i p show ?thesis by (auto simp: pass_step_def update_task_def)
  next
    case Begun
    with assms i p show ?thesis by (auto simp: pass_step_def split: prod.splits)
  next
    case (Worked r)
    with assms i p have "heap tm' = heap ((update_task a (Process_commit r) tm)
                          \<lparr>passes := take i (passes tm) @ drop (Suc i) (passes tm),
                           printed := printed tm @ commit_effects r (heap tm ! a)\<rparr>)"
      by (auto simp: pass_step_def dest: release_fields(1))
    with i p Worked show ?thesis by (simp add: update_task_def)
  qed
qed

lemma status_moves_refl: "status_moves s s"
  by (simp add: status_moves_def)

lemma step_status:
  assumes wf: "wf_tm tm" and keep: "\<forall>t. Status (SetResultURL E t) = Status t"
    and st: "step cfg E act tm = Some tm'" and a: "a < length (heap tm)"
  shows "status_moves (Status (heap tm ! a)) (Status (heap tm' ! a))"
proof (cases act)
  case CreateTask
  with st a show ?thesis
    by (auto simp: step_def Create_fields nth_append status_moves_refl)
next
  case (AppendFile taskID reqBody)
  with st have tm': "tm' = snd (AddFileHandler cfg E taskID reqBody tm)"
    by (simp add: step_def)
  show ?thesis
  proof (cases "Tasks tm taskID = None \<or> json_Decode reqBody = None")
    case True
    then show ?thesis by (simp add: tm' AddFileHandler_state_unknown status_moves_refl)
  next
    case False
    then obtain b url where b: "Tasks tm taskID = Some b" and url: "json_Decode reqBody = Some url"
      by auto
    from wf b have blt: "b < length (heap tm)" by (rule wf_tm_Tasks)
    show ?thesis
      using a blt keep
      by (simp add: tm' AddFileHandler_known(2) [OF b blt url] nth_list_update AddFile_def
          status_moves_refl)
  qed
next
  case (PassStep i)
  with st have ps: "pass_step cfg E i tm = Some tm'" by (simp add: step_def)
  from pass_step_heap [OF ps] obtain b ph where i: "i < length (passes tm)"
    and p: "passes tm ! i = (b, ph)"
    and h: "heap tm' =
               (case ph of
                  Spawned \<Rightarrow> (heap tm)[b := Process_begin (heap tm ! b)]
                | Begun \<Rightarrow> heap tm
                | Worked r \<Rightarrow> (heap tm)[b := Process_commit r (heap tm ! b)])"
    by blast
  from i p have mem: "(b, ph) \<in> set (passes tm)" by (metis nth_mem)
  show ?thesis
  proof (cases ph)
    case Spawned
    with h a show ?thesis
      by (cases "a = b") (simp_all add: status_moves_def Process_begin_def)
  next
    case Begun
    with h show ?thesis by (simp add: status_moves_refl)
  next
    case (Worked r)
    with wf mem have "Status (heap tm ! b) \<noteq> StatusCreated"
      by (auto dest: wf_tm_begun)
    with Worked h a show ?thesis
      by (cases "a = b")
        (auto simp: status_moves_def Process_commit_def setError_def split: pass_result.splits)
  qed
qed

lemma step_heap_grows:
  assumes "step cfg E act tm = Some tm'"
  shows "length (heap tm) \<le> length (heap tm')"
    and "length (heap tm) \<le> a \<Longrightarrow> a < length (heap tm')
           \<Longrightarrow> heap tm' ! a = NewTask (uuid_New E (length (heap tm)))"
proof -
  have "length (heap tm) \<le> length (heap tm')
        \<and> (length (heap tm) \<le> a \<longrightarrow> a < length (heap tm')
             \<longrightarrow> heap tm' ! a = NewTask (uuid_New E (length (heap tm))))"
  proof (cases act)
    case CreateTask
    with assms show ?thesis
      by (auto simp: step_def Create_fields nth_append)
  next
    case (AppendFile taskID reqBody)
    with assms have tm': "tm' = snd (AddFileHandler cfg E taskID reqBody tm)"
      by (simp add: step_def)
    have "length (heap tm') = length (heap tm)"
      by (simp add: tm' AddFileHandler_def logged_def update_task_def spawn_def Let_def
          split: option.splits)
    then show ?thesis by simp
  next
    case (PassStep i)
    with assms have "pass_step cfg E i tm = Some tm'" by (simp add: step_def)
    from pass_step_heap [OF this] obtain b ph where
      "heap tm' =
               (case ph of
                  Spawned \<Rightarrow> (heap tm)[b := Process_begin (heap tm ! b)]
                | Begun \<Rightarrow> heap tm
                | Worked r \<Rightarrow> (heap tm)[b := Process_commit r (heap tm ! b)])"
      by blast
    then have "length (heap tm') = length (heap tm)"
      by (cases ph) simp_all
    then show ?thesis by simp
  qed
  then show "length (heap tm) \<le> length (heap tm')"
    and "length (heap tm) \<le> a \<Longrightarrow> a < length (heap tm')
           \<Longrightarrow> heap tm' ! a = NewTask (uuid_New E (length (heap tm)))"
    by simp_all
qed

text \<open>
  C4, as amended.  In every state reachable from the start by create-task calls, append-file
  calls and steps of processing passes, one more step moves the status of a task only in
  these ways: it stays, it becomes \<open>processing\<close> (from any status, \<open>done\<close> and
  \<open>error\<close> included, when another pass starts), or it becomes \<open>done\<close> or
  \<open>error\<close> from a status other than \<open>created\<close>.  So no task returns to
  \<open>created\<close> and none reaches \<open>done\<close> or \<open>error\<close> without having been
  \<open>processing\<close>; a task allocated by the step starts as \<open>created\<close>.  The method
  \<open>SetResultURL\<close> is taken to keep the status.
\<close>

theorem status_moves_forward_or_restarts:
  assumes keep: "\<forall>t. Status (SetResultURL E t) = Status t"
    and init: "NewTaskManager cfg w = Some tm0"
    and reach: "run cfg E acts tm0 = Some tm"
    and st: "step cfg E act tm = Some tm'"
  shows "(\<forall>a < length (heap tm). status_moves (Status (heap tm ! a)) (Status (heap tm' ! a)))
         \<and> (\<forall>a. length (heap tm) \<le> a \<and> a < length (heap tm')
                \<longrightarrow> Status (heap tm' ! a) = StatusCreated)"
proof -
  from init have "wf_tm tm0" by (rule wf_NewTaskManager)
  then have wf: "wf_tm tm" using keep reach by (auto intro: wf_run)
  have "\<forall>a < length (heap tm). status_moves (Status (heap tm ! a)) (Status (heap tm' ! a))"
    using step_status [OF wf keep st] by blast
  moreover have "\<forall>a. length (heap tm) \<le> a \<and> a < length (heap tm')
                \<longrightarrow> Status (heap tm' ! a) = StatusCreated"
    using step_heap_grows(2) [OF st] by (auto simp: NewTask_def)
  ultimately show ?thesis by blast
qed

section \<open>Runs of the task manager under the concrete environment\<close>

lemma lower_url: "strings_ToLower ''url'' = ''url''"
  by (simp add: strings_ToLower_def)

lemma decode_url_body: "json_Decode (url_body s) = Some s"
  by (simp add: json_Decode_def url_body_def lower_url)

lemma AddFileHandler_eval:
  assumes "Tasks tm taskID = Some a" and "a < length (heap tm)"
    and "json_Decode reqBody = Some url"
  shows "AddFileHandler cfg E taskID reqBody tm =
     (if MaxFilesPerTask cfg \<le> int (length (FileURLs (heap tm ! a))) + 1 then
        if int (concurrentTaskSema tm) < MaxConcurrentTasks cfg then
          (Replied Accepted_202,
           tm\<lparr>heap := (heap tm)[a := SetResultURL E (AddFile url (heap tm ! a))],
              concurrentTaskSema := Suc (concurrentTaskSema tm),
              passes := passes tm @ [(a, Spawned)],
              printed := printed tm @
                [Log (''AddFileHandler called for task ID: '' @ taskID),
                 Log (''Adding file '' @ url @ '' to task ID: '' @ taskID),
                 Log (''Task '' @ taskID @ '' reached max files, starting processing'')]\<rparr>)
        else
          (Suspended,
           tm\<lparr>heap := (heap tm)[a := SetResultURL E (AddFile url (heap tm ! a))],
              sendq := sendq tm @ [a],
              printed := printed tm @
                [Log (''AddFileHandler called for task ID: '' @ taskID),
                 Log (''Adding file '' @ url @ '' to task ID: '' @ taskID),
                 Log (''Task '' @ taskID @ '' reached max files, starting processing'')]\<rparr>)
      else
        (Replied Accepted_202,
         tm\<lparr>heap := (heap tm)[a := AddFile url (heap tm ! a)],
            printed := printed tm @
              [Log (''AddFileHandler called for task ID: '' @ taskID),
               Log (''Adding file '' @ url @ '' to task ID: '' @ taskID)]\<rparr>))"
  using assms
  by (simp add: AddFileHandler_def logged_def update_task_def spawn_def AddFile_def Let_def)

lemmas demo_simps =
  step_def CreateTaskHandler_def pass_step_def release_def
  update_task_def spawn_def logged_def NewTask_def AddFile_def setError_def
  Process_begin_def Process_work_def Process_commit_def begin_effects_def commit_effects_def
  process_file_def emit_def file_failed_def filepath_Base_def
  decode_url_body AddFileHandler_eval
  demo_env_def demo_cfg_def demo_tm_def demo_Get_def Let_def
  allowed_a_png allowed_b_PNG allowed_c_png allowed_g_png refused_e_exe

lemma demo_keep: "\<forall>t. Status (SetResultURL demo_env t) = Status t"
  by (simp add: demo_env_def)

lemma demo_init: "NewTaskManager demo_cfg (Suc 0) = Some (demo_tm (Suc 0))"
  by (simp add: NewTaskManager_def demo_cfg_def demo_tm_def)


lemma run_demo_worked:
  "run demo_cfg demo_env
     [CreateTask, AppendFile ''u'' (url_body ''http://h/a.png''), PassStep 0, PassStep 0]
     (demo_tm (Suc 0))
   = Some demo_worked"
  by (simp add: demo_simps demo_worked_def)

lemma step_demo_worked: "step demo_cfg demo_env (PassStep 0) demo_worked = Some demo_done"
  by (simp add: demo_simps demo_worked_def demo_done_def)

lemma run_demo_done:
  "run demo_cfg demo_env
     [CreateTask, AppendFile ''u'' (url_body ''http://h/a.png''), PassStep 0, PassStep 0,
      PassStep 0]
     (demo_tm (Suc 0))
   = Some demo_done"
  by (simp add: demo_simps demo_done_def)


section \<open>Admission at the threshold (C1)\<close>





section \<open>Passes of one task (C2)\<close>




section \<open>The end of a pass (C3)\<close>




section \<open>The moves of the status (C4)\<close>

text \<open>
  The claim fails on \<open>demo_done\<close>: the task is \<open>done\<close>, and one more
  append-file call followed by the first step of the pass it starts sets it back to
  \<open>processing\<close>.
\<close>

theorem status_regress_counterexample:
  "run demo_cfg demo_env
     [CreateTask, AppendFile ''u'' (url_body ''http://h/a.png''), PassStep 0, PassStep 0,
      PassStep 0]
     (demo_tm (Suc 0))
   = Some demo_done
   \<and> Status (heap demo_done ! 0) = StatusDone
   \<and> map_option heap
       (run demo_cfg demo_env
          [AppendFile ''u'' (url_body ''http://h/c.png?v=1''), PassStep 0] demo_done)
     = Some [\<lparr>ID = ''u'', Status = StatusProcessing,
              FileURLs = [''http://h/a.png'', ''http://h/c.png?v=1''],
              ResultURL = ''/archives/u.zip'', ErrorDetails = []\<rparr>]"
proof -
  have "Status (heap demo_done ! 0) = StatusDone"
    by (simp add: demo_done_def)
  moreover have "map_option heap
       (run demo_cfg demo_env
          [AppendFile ''u'' (url_body ''http://h/c.png?v=1''), PassStep 0] demo_done)
     = Some [\<lparr>ID = ''u'', Status = StatusProcessing,
              FileURLs = [''http://h/a.png'', ''http://h/c.png?v=1''],
              ResultURL = ''/archives/u.zip'', ErrorDetails = []\<rparr>]"
    by (simp add: demo_simps demo_done_def)
  ultimately show ?thesis
    using run_demo_done by (intro conjI)
qed

theorem status_moves_forward_or_restarts_witness:
  "NewTaskManager demo_cfg (Suc 0) = Some (demo_tm (Suc 0))
   \<and> run demo_cfg demo_env
       [CreateTask, AppendFile ''u'' (url_body ''http://h/a.png''), PassStep 0, PassStep 0]
       (demo_tm (Suc 0))
     = Some demo_worked
   \<and> step demo_cfg demo_env (PassStep 0) demo_worked = Some demo_done
   \<and> Status (heap demo_worked ! 0) = StatusProcessing
   \<and> Status (heap demo_done ! 0) = StatusDone
   \<and> status_moves (Status (heap demo_worked ! 0)) (Status (heap demo_done ! 0))"
proof -
  have "\<forall>a < length (heap demo_worked).
          status_moves (Status (heap demo_worked ! a)) (Status (heap demo_done ! a))"
    using status_moves_forward_or_restarts
      [OF demo_keep demo_init run_demo_worked step_demo_worked]
    by blast
  then have "status_moves (Status (heap demo_worked ! 0)) (Status (heap demo_done ! 0))"
    by (simp add: demo_worked_def)
  then show ?thesis
    using demo_init run_demo_worked step_demo_worked
    by (simp add: demo_worked_def demo_done_def)
qed

section \<open>The name of an archive entry (C6)\<close>

text \<open>
  C6 at a URL with a query string.  The path of the URL is \<open>/c.png\<close>, whose last
  segment is \<open>c.png\<close>; the loop applies \<open>filepath.Base\<close> to the whole URL
  and names the entry \<open>c.png?v=1\<close>.
\<close>

theorem entry_name_keeps_query:
  "url_Parse demo_env ''http://h/c.png?v=1'' = Some \<lparr>Path = ''/c.png'', Query = [(''v'', [''1''])]\<rparr>
   \<and> filepath_Base ''/c.png'' = ''c.png''
   \<and> entries (process_file demo_env [''.png''] ''u'' ''http://h/c.png?v=1''
        \<lparr>errors = [], entries = [], effects = [], deferred = [], wld = Suc 0\<rparr>)
     = [''c.png?v=1'']
   \<and> errors (process_file demo_env [''.png''] ''u'' ''http://h/c.png?v=1''
        \<lparr>errors = [], entries = [], effects = [], deferred = [], wld = Suc 0\<rparr>)
     = []"
  by (simp add: demo_simps demo_Parse_def)

section \<open>The replies of the append-file call (C7)\<close>

lemma decode_fields_None:
  "(decode_fields kvs url failed = None) =
     (failed \<or> (\<exists>k v. (k, v) \<in> set kvs \<and> strings_ToLower k = ''url''
                       \<and> v \<noteq> JNull \<and> (\<forall>s. v \<noteq> JString s)))"
proof (induction kvs arbitrary: url failed)
  case Nil
  then show ?case by simp
next
  case (Cons kv kvs)
  obtain k v where kv: "kv = (k, v)" by (cases kv)
  show ?case
  proof (cases "strings_ToLower k = ''url''")
    case True
    then show ?thesis
      by (cases v) (auto simp: kv Cons.IH)
  next
    case False
    then show ?thesis
      by (auto simp: kv Cons.IH)
  qed
qed

text \<open>
  The claim fails on the body \<open>{}\<close>: the decoder reports no error, the call is
  accepted and the empty string is appended to the files of the task.
\<close>

theorem empty_url_accepted_counterexample:
  "Tasks demo_busy ''uu'' = Some 1
   \<and> AllowedExtensions demo_cfg = [''.png'']
   \<and> json_Decode (Some (JObject [])) = Some []
   \<and> json_Decode (Some (JObject [(''url'', JString [])])) = Some []
   \<and> fst (AddFileHandler (demo_cfg\<lparr>MaxFilesPerTask := 2\<rparr>) demo_env ''uu''
            (Some (JObject [])) demo_busy)
       = Replied Accepted_202
   \<and> map FileURLs (heap (snd (AddFileHandler (demo_cfg\<lparr>MaxFilesPerTask := 2\<rparr>) demo_env ''uu''
                                 (Some (JObject [])) demo_busy)))
       = [[''http://h/a.png''], [[]]]"
  by (simp add: json_Decode_def lower_url AddFileHandler_eval
      demo_busy_def demo_cfg_def AddFile_def)

text \<open>
  C7, as amended.  The append-file call replies 404 exactly when the task identifier is
  unknown, 400 exactly when the task is known and the decoder returns an error, and is
  accepted (202, or suspended before it) exactly when the task is known and the decoder
  returns no error; the decoded string is then appended to the files of the task.  The
  decoder returns an error on a body without a JSON value, on a value that is neither an
  object nor \<open>null\<close>, and on an object with a member \<open>url\<close> that is neither
  a string nor \<open>null\<close>; an object without that member, or with an empty string for
  it, decodes to the empty string.
\<close>

theorem AddFileHandler_replies:
  "((fst (AddFileHandler cfg E taskID reqBody tm) = Replied (NotFound_404 ''task not found''))
      = (Tasks tm taskID = None))
   \<and> ((fst (AddFileHandler cfg E taskID reqBody tm)
         = Replied (BadRequest_400 ''invalid request body''))
      = (Tasks tm taskID \<noteq> None \<and> json_Decode reqBody = None))
   \<and> ((fst (AddFileHandler cfg E taskID reqBody tm) = Replied Accepted_202
        \<or> fst (AddFileHandler cfg E taskID reqBody tm) = Suspended)
      = (Tasks tm taskID \<noteq> None \<and> json_Decode reqBody \<noteq> None))
   \<and> (\<forall>a url. Tasks tm taskID = Some a \<and> a < length (heap tm) \<and> json_Decode reqBody = Some url
        \<longrightarrow> heap (snd (AddFileHandler cfg E taskID reqBody tm)) ! a = AddFile url (heap tm ! a)
          \<or> heap (snd (AddFileHandler cfg E taskID reqBody tm)) ! a
              = SetResultURL E (AddFile url (heap tm ! a)))
   \<and> json_Decode None = None
   \<and> json_Decode (Some JNull) = Some []
   \<and> json_Decode (Some (JObject [])) = Some []
   \<and> json_Decode (Some (JObject [(''url'', JString url')])) = Some url'
   \<and> ((json_Decode (Some (JObject kvs)) = None)
        = (\<exists>k v. (k, v) \<in> set kvs \<and> strings_ToLower k = ''url''
                  \<and> v \<noteq> JNull \<and> (\<forall>s. v \<noteq> JString s)))
   \<and> json_Decode (Some (JBool b)) = None
   \<and> json_Decode (Some (JNumber n)) = None
   \<and> json_Decode (Some (JString s)) = None
   \<and> json_Decode (Some (JArray vs)) = None"
proof -
  have replies:
    "((fst (AddFileHandler cfg E taskID reqBody tm) = Replied (NotFound_404 ''task not found''))
      = (Tasks tm taskID = None))
   \<and> ((fst (AddFileHandler cfg E taskID reqBody tm)
         = Replied (BadRequest_400 ''invalid request body''))
      = (Tasks tm taskID \<noteq> None \<and> json_Decode reqBody = None))
   \<and> ((fst (AddFileHandler cfg E taskID reqBody tm) = Replied Accepted_202
        \<or> fst (AddFileHandler cfg E taskID reqBody tm) = Suspended)
      = (Tasks tm taskID \<noteq> None \<and> json_Decode reqBody \<noteq> None))"
    by (auto simp: AddFileHandler_def logged_def Let_def split: option.splits)
  have recorded:
    "\<forall>a url. Tasks tm taskID = Some a \<and> a < length (heap tm) \<and> json_Decode reqBody = Some url
        \<longrightarrow> heap (snd (AddFileHandler cfg E taskID reqBody tm)) ! a = AddFile url (heap tm ! a)
          \<or> heap (snd (AddFileHandler cfg E taskID reqBody tm)) ! a
              = SetResultURL E (AddFile url (heap tm ! a))"
    by (simp add: AddFileHandler_eval)
  have decode:
    "json_Decode None = None"
    "json_Decode (Some JNull) = Some []"
    "json_Decode (Some (JObject [])) = Some []"
    "json_Decode (Some (JObject [(''url'', JString url')])) = Some url'"
    "json_Decode (Some (JBool b)) = None"
    "json_Decode (Some (JNumber n)) = None"
    "json_Decode (Some (JString s)) = None"
    "json_Decode (Some (JArray vs)) = None"
    by (simp_all add: json_Decode_def lower_url)
  have obj: "(json_Decode (Some (JObject kvs)) = None)
        = (\<exists>k v. (k, v) \<in> set kvs \<and> strings_ToLower k = ''url''
                  \<and> v \<noteq> JNull \<and> (\<forall>s. v \<noteq> JString s))"
    by (simp add: json_Decode_def decode_fields_None)
  from replies recorded decode obj show ?thesis by blast
qed

theorem AddFileHandler_replies_witness:
  "fst (AddFileHandler demo_cfg demo_env ''nobody'' (url_body ''http://h/a.png'') demo_busy)
     = Replied (NotFound_404 ''task not found'')
   \<and> Tasks demo_busy ''nobody'' = None
   \<and> fst (AddFileHandler demo_cfg demo_env ''uu'' (Some (JObject [(''URL'', JNumber ''5'')]))
            demo_busy)
     = Replied (BadRequest_400 ''invalid request body'')
   \<and> Tasks demo_busy ''uu'' = Some 1
   \<and> json_Decode (Some (JObject [(''URL'', JNumber ''5'')])) = None"
proof -
  have a: "Tasks demo_busy ''nobody'' = None" by (simp add: demo_busy_def)
  have b: "Tasks demo_busy ''uu'' = Some 1" by (simp add: demo_busy_def)
  have l: "strings_ToLower ''URL'' = ''url''" by code_simp
  have c: "json_Decode (Some (JObject [(''URL'', JNumber ''5'')])) = None"
    by (simp add: json_Decode_def l)
  have "(fst (AddFileHandler demo_cfg demo_env ''nobody'' (url_body ''http://h/a.png'') demo_busy)
           = Replied (NotFound_404 ''task not found''))
        = (Tasks demo_busy ''nobody'' = None)"
    using AddFileHandler_replies
      [of demo_cfg demo_env "''nobody''" "url_body ''http://h/a.png''" demo_busy]
    by blast
  moreover have "(fst (AddFileHandler demo_cfg demo_env ''uu''
                        (Some (JObject [(''URL'', JNumber ''5'')])) demo_busy)
                    = Replied (BadRequest_400 ''invalid request body''))
        = (Tasks demo_busy ''uu'' \<noteq> None \<and> json_Decode (Some (JObject [(''URL'', JNumber ''5'')])) = None)"
    using AddFileHandler_replies
      [of demo_cfg demo_env "''uu''" "Some (JObject [(''URL'', JNumber ''5'')])" demo_busy]
    by blast
  ultimately show ?thesis using a b c by simp
qed

section \<open>Creating a task (C8)\<close>







section \<open>The extension filter against the spec (C9)\<close>




end
